theory Spec2Isabelle
  imports Main
begin

section \<open>Python strings\<close>

text \<open>
  A Python \<open>str\<close> is a sequence of Unicode code points, so it is modelled as a list of
  natural numbers: the price extractor removes the rouble sign U+20BD and the name
  extractor splits at the dash U+2013, and \<open>str.strip\<close> removes every Unicode
  white-space character, none of which fits an 8-bit character.
\<close>

type_synonym pystr = "nat list"

definition py :: "string \<Rightarrow> pystr" where
  "py s = map of_char s"

definition RUBLE :: nat where
  "RUBLE = 8381"

definition DASH :: nat where
  "DASH = 8211"

text \<open>The code points for which Python's \<open>str.isspace\<close> holds.\<close>

definition isspace :: "nat \<Rightarrow> bool" where
  "isspace c \<longleftrightarrow>
     (9 \<le> c \<and> c \<le> 13) \<or> (28 \<le> c \<and> c \<le> 32) \<or> c = 133 \<or> c = 160 \<or> c = 5760 \<or>
     (8192 \<le> c \<and> c \<le> 8202) \<or> c = 8232 \<or> c = 8233 \<or> c = 8239 \<or> c = 8287 \<or>
     c = 12288"

text \<open>\<open>s.strip()\<close>\<close>

definition strip :: "pystr \<Rightarrow> pystr" where
  "strip s = rev (dropWhile isspace (rev (dropWhile isspace s)))"

text \<open>\<open>s.startswith(p)\<close>\<close>

fun startswith :: "pystr \<Rightarrow> pystr \<Rightarrow> bool" where
  "startswith s [] = True"
| "startswith [] (p # ps) = False"
| "startswith (c # cs) (p # ps) = (c = p \<and> startswith cs ps)"

text \<open>
  \<open>s.replace(old, '')\<close>: every occurrence of \<open>old\<close> is removed, scanning from the left
  and continuing after each occurrence; an empty \<open>old\<close> leaves the string as it is.
  The first argument counts the characters of the current occurrence still to skip.
\<close>

fun remove_from :: "nat \<Rightarrow> pystr \<Rightarrow> pystr \<Rightarrow> pystr" where
  "remove_from k old [] = []"
| "remove_from (Suc k) old (c # cs) = remove_from k old cs"
| "remove_from 0 old (c # cs) =
     (if old \<noteq> [] \<and> startswith (c # cs) old
      then remove_from (length old - 1) old cs
      else c # remove_from 0 old cs)"

definition replace_empty :: "pystr \<Rightarrow> pystr \<Rightarrow> pystr" where
  "replace_empty s old = remove_from 0 old s"

text \<open>\<open>s.split(sep)\<close> for a separator of one character; the result is never empty.\<close>

fun split_on :: "nat \<Rightarrow> pystr \<Rightarrow> pystr list" where
  "split_on sep [] = [[]]"
| "split_on sep (c # cs) =
     (if c = sep then [] # split_on sep cs
      else (case split_on sep cs of
              [] \<Rightarrow> [[c]]
            | w # ws \<Rightarrow> (c # w) # ws))"

text \<open>\<open>sep.join(xs)\<close>\<close>

fun join :: "pystr \<Rightarrow> pystr list \<Rightarrow> pystr" where
  "join sep [] = []"
| "join sep [x] = x"
| "join sep (x # y # ys) = x @ sep @ join sep (y # ys)"

section \<open>The parsed document\<close>

text \<open>
  A document as BeautifulSoup holds it: a tree of elements and strings. An element
  has a tag name, the list of its classes (BeautifulSoup keeps \<open>class\<close> as a list) and
  its other attributes as a dictionary. The \<open>Text\<close> nodes are the strings that
  \<open>.text\<close> and \<open>get_text\<close> report.
\<close>

record head =
  el_tag :: pystr
  el_classes :: "pystr list"
  el_attrs :: "(pystr \<times> pystr) list"

datatype node = Text pystr | Elem head "node list"

type_synonym soup = "node list"

text \<open>
  A \<open>Tag\<close> object: an element together with the chain of its ancestors (nearest
  first), which a selector with a descendant combinator looks at.
\<close>

record tag =
  t_ancs :: "head list"
  t_head :: head
  t_kids :: "node list"

text \<open>\<open>tag.get(name)\<close>\<close>

definition get_attr :: "tag \<Rightarrow> pystr \<Rightarrow> pystr option" where
  "get_attr t name = map_of (el_attrs (t_head t)) name"

text \<open>The strings below a node, in document order.\<close>

fun strings :: "node \<Rightarrow> pystr list" where
  "strings (Text s) = [s]"
| "strings (Elem h kids) = concat (map strings kids)"

text \<open>\<open>tag.text\<close>\<close>

definition text_of :: "tag \<Rightarrow> pystr" where
  "text_of t = concat (concat (map strings (t_kids t)))"

text \<open>\<open>tag.get_text(strip=True, separator=sep)\<close>: every string is stripped, the empty
  ones are dropped, the rest is joined.\<close>

definition get_text_strip :: "pystr \<Rightarrow> tag \<Rightarrow> pystr" where
  "get_text_strip sep t =
     join sep (filter (\<lambda>s. s \<noteq> []) (map strip (concat (map strings (t_kids t)))))"

text \<open>The elements below a node in document order, each with its ancestors.\<close>

fun descendants :: "head list \<Rightarrow> node \<Rightarrow> tag list" where
  "descendants ancs (Text s) = []"
| "descendants ancs (Elem h kids) =
     \<lparr>t_ancs = ancs, t_head = h, t_kids = kids\<rparr> # concat (map (descendants (h # ancs)) kids)"

definition soup_tags :: "soup \<Rightarrow> tag list" where
  "soup_tags doc = concat (map (descendants []) doc)"

definition tag_tags :: "tag \<Rightarrow> tag list" where
  "tag_tags t = concat (map (descendants (t_head t # t_ancs t)) (t_kids t))"

section \<open>Selectors\<close>

text \<open>
  The CSS selectors the parser uses: a simple selector is a class, a tag name or an
  id; a complex selector is a chain of simple selectors joined by the descendant
  combinator; a selector list is a comma-separated list of them.
\<close>

datatype simple = Class pystr | Tag pystr | Id pystr

fun simple_match :: "simple \<Rightarrow> head \<Rightarrow> bool" where
  "simple_match (Class c) h = (c \<in> set (el_classes h))"
| "simple_match (Tag n) h = (el_tag h = n)"
| "simple_match (Id i) h = (map_of (el_attrs h) (py ''id'') = Some i)"

text \<open>Some chain of ancestors matches the selectors, the innermost selector first.\<close>

fun anc_match :: "simple list \<Rightarrow> head list \<Rightarrow> bool" where
  "anc_match [] ancs = True"
| "anc_match (s # ss) [] = False"
| "anc_match (s # ss) (a # ancs) =
     ((simple_match s a \<and> anc_match ss ancs) \<or> anc_match (s # ss) ancs)"

text \<open>A complex selector is given innermost first: \<open>.title a\<close> is \<open>[Tag a, Class title]\<close>.\<close>

fun complex_match :: "simple list \<Rightarrow> tag \<Rightarrow> bool" where
  "complex_match [] t = False"
| "complex_match (s # ss) t = (simple_match s (t_head t) \<and> anc_match ss (t_ancs t))"

definition sel_match :: "simple list list \<Rightarrow> tag \<Rightarrow> bool" where
  "sel_match sel t = (\<exists>c \<in> set sel. complex_match c t)"

definition first :: "'a list \<Rightarrow> 'a option" where
  "first xs = (case xs of [] \<Rightarrow> None | x # _ \<Rightarrow> Some x)"

text \<open>\<open>soup.select(sel)\<close>, \<open>soup.select_one(sel)\<close> and the same on a tag.\<close>

definition select :: "soup \<Rightarrow> simple list list \<Rightarrow> tag list" where
  "select doc sel = filter (sel_match sel) (soup_tags doc)"

definition select_one :: "soup \<Rightarrow> simple list list \<Rightarrow> tag option" where
  "select_one doc sel = first (select doc sel)"

definition tag_select :: "tag \<Rightarrow> simple list list \<Rightarrow> tag list" where
  "tag_select t sel = filter (sel_match sel) (tag_tags t)"

definition tag_select_one :: "tag \<Rightarrow> simple list list \<Rightarrow> tag option" where
  "tag_select_one t sel = first (tag_select t sel)"

text \<open>\<open>soup.find(name)\<close> and \<open>soup.find(name, {attr: value})\<close>\<close>

definition find_tag :: "soup \<Rightarrow> pystr \<Rightarrow> tag option" where
  "find_tag doc name = first (filter (\<lambda>t. el_tag (t_head t) = name) (soup_tags doc))"

definition find_tag_attr :: "soup \<Rightarrow> pystr \<Rightarrow> pystr \<Rightarrow> pystr \<Rightarrow> tag option" where
  "find_tag_attr doc name attr v =
     first (filter (\<lambda>t. el_tag (t_head t) = name \<and> get_attr t attr = Some v) (soup_tags doc))"

section \<open>Field extractors\<close>

definition get_name :: "soup \<Rightarrow> pystr" where
  "get_name doc =
     (let from_h1 = (case find_tag doc (py ''h1'') of
                       Some h1 \<Rightarrow> strip (text_of h1)
                     | None \<Rightarrow> [])
      in case find_tag doc (py ''title'') of
           Some title \<Rightarrow>
             (let title_text = strip (text_of title)
              in if DASH \<in> set title_text
                 then (case split_on DASH title_text of
                         w # _ \<Rightarrow> strip w
                       | [] \<Rightarrow> [])
                 else from_h1)
         | None \<Rightarrow> from_h1)"

definition get_manufacturer :: "soup \<Rightarrow> pystr" where
  "get_manufacturer doc =
     (let from_brand = (case select_one doc [[Tag (py ''a''), Class (py ''brand'')]] of
                          Some brand_link \<Rightarrow> strip (text_of brand_link)
                        | None \<Rightarrow> [])
      in case find_tag_attr doc (py ''meta'') (py ''name'') (py ''keywords'') of
           Some meta \<Rightarrow>
             (case get_attr meta (py ''content'') of
                Some c \<Rightarrow>
                  (if c \<noteq> []
                   then (let content = strip c;
                             parts = filter (\<lambda>part. part \<noteq> [])
                                       (map strip (split_on (of_char CHR '','') content))
                         in if parts \<noteq> [] then last parts else from_brand)
                   else from_brand)
              | None \<Rightarrow> from_brand)
         | None \<Rightarrow> from_brand)"

record price_data =
  old_price :: pystr
  current_price :: pystr
  discount :: pystr

definition get_price :: "soup \<Rightarrow> price_data" where
  "get_price doc =
     (let price_data = \<lparr>old_price = [], current_price = [], discount = []\<rparr>
      in case select_one doc [[Class (py ''packing-price-item'')]] of
           None \<Rightarrow> price_data
         | Some price_block \<Rightarrow>
             (let old = tag_select_one price_block [[Class (py ''price-del'')]];
                  price_data = (case old of
                                  Some old_el \<Rightarrow> price_data\<lparr>old_price := strip (text_of old_el)\<rparr>
                                | None \<Rightarrow> price_data);
                  price_text = strip (text_of price_block);
                  price_data = (case old of
                                  Some old_el \<Rightarrow>
                                    price_data\<lparr>current_price :=
                                      strip (replace_empty
                                               (replace_empty price_text (strip (text_of old_el)))
                                               [RUBLE])\<rparr>
                                | None \<Rightarrow> price_data)
              in case tag_select_one price_block
                        [[Class (py ''price-customer-discount-badge'')]] of
                   Some discount_block \<Rightarrow> price_data\<lparr>discount := strip (text_of discount_block)\<rparr>
                 | None \<Rightarrow> price_data))"

definition get_category :: "soup \<Rightarrow> pystr" where
  "get_category doc =
     (let breadcrumbs = select doc [[Tag (py ''li''), Class (py ''shop-head-menu'')]]
      in if length breadcrumbs \<ge> 2
         then (let category = strip (text_of (breadcrumbs ! (length breadcrumbs - 2)))
               in if category \<noteq> [] then category else [])
         else [])"

text \<open>The loop over the thumbnails, with the list collected so far.\<close>

fun add_thumbnails :: "pystr list \<Rightarrow> tag list \<Rightarrow> pystr list" where
  "add_thumbnails images [] = images"
| "add_thumbnails images (img # imgs) =
     (case get_attr img (py ''src'') of
        Some src \<Rightarrow>
          (if src \<noteq> [] \<and> src \<notin> set images
           then add_thumbnails (images @ [src]) imgs
           else add_thumbnails images imgs)
      | None \<Rightarrow> add_thumbnails images imgs)"

definition main_image_src :: "soup \<Rightarrow> pystr list" where
  "main_image_src doc =
     (case select_one doc [[Class (py ''simpleLens-big-image'')]] of
        Some main_image \<Rightarrow>
          (case get_attr main_image (py ''src'') of
             Some src \<Rightarrow> (if src \<noteq> [] then [src] else [])
           | None \<Rightarrow> [])
      | None \<Rightarrow> [])"

definition get_images :: "soup \<Rightarrow> pystr list" where
  "get_images doc =
     add_thumbnails (main_image_src doc)
       (select doc [[Tag (py ''img''), Class (py ''simpleLens-thumbnails-container'')]])"

fun add_weights :: "pystr list \<Rightarrow> tag list \<Rightarrow> pystr list" where
  "add_weights weights [] = weights"
| "add_weights weights (weight_item # items) =
     (let weight = strip (text_of weight_item)
      in if weight \<noteq> [] then add_weights (weights @ [weight]) items
         else add_weights weights items)"

definition get_weight :: "soup \<Rightarrow> pystr list" where
  "get_weight doc = add_weights [] (select doc [[Class (py ''product-show-packing'')]])"

text \<open>
  The tab extractor changes the document: it removes (\<open>decompose\<close>) every \<open>script\<close> and
  \<open>style\<close> element below the tab before it reads the text, so it returns the
  document as it leaves it, and the extractors called later see that one.
\<close>

fun is_script_style :: "node \<Rightarrow> bool" where
  "is_script_style (Text s) = False"
| "is_script_style (Elem h kids) = (el_tag h = py ''script'' \<or> el_tag h = py ''style'')"

fun prune :: "node \<Rightarrow> node" where
  "prune (Text s) = Text s"
| "prune (Elem h kids) = Elem h (map prune (filter (\<lambda>k. \<not> is_script_style k) kids))"

text \<open>The first element with the id, in document order, pruned in place; \<open>None\<close> when no
  element has the id.\<close>

fun prune_at :: "pystr \<Rightarrow> node \<Rightarrow> node option"
  and prune_at_list :: "pystr \<Rightarrow> node list \<Rightarrow> node list option" where
  "prune_at i (Text s) = None"
| "prune_at i (Elem h kids) =
     (if simple_match (Id i) h then Some (prune (Elem h kids))
      else map_option (Elem h) (prune_at_list i kids))"
| "prune_at_list i [] = None"
| "prune_at_list i (n # ns) =
     (case prune_at i n of
        Some n' \<Rightarrow> Some (n' # ns)
      | None \<Rightarrow> map_option ((#) n) (prune_at_list i ns))"

definition get_tab_content :: "soup \<Rightarrow> pystr \<Rightarrow> pystr \<times> soup" where
  "get_tab_content doc tab_id =
     (case select_one doc [[Id tab_id]] of
        Some tab \<Rightarrow>
          (let doc' = (case prune_at_list tab_id doc of Some d \<Rightarrow> d | None \<Rightarrow> doc);
               tab' = tab\<lparr>t_kids := map prune (filter (\<lambda>k. \<not> is_script_style k) (t_kids tab))\<rparr>
           in (get_text_strip [10] tab', doc'))
      | None \<Rightarrow> ([], doc))"

datatype review = Review (review_text: pystr)

fun add_reviews :: "review list \<Rightarrow> tag list \<Rightarrow> review list" where
  "add_reviews reviews [] = reviews"
| "add_reviews reviews (r # review_items) =
     add_reviews (reviews @ [Review (get_text_strip [] r)]) review_items"

definition get_reviews :: "soup \<Rightarrow> review list" where
  "get_reviews doc =
     add_reviews [] (select doc [[Tag (py ''li''), Class (py ''product-comments-block'')]])"

section \<open>Product assembly\<close>

text \<open>The values a product dictionary holds; the dictionary keeps its keys in the order
  they were inserted.\<close>

datatype pyval =
  VStr pystr | VNone | VPrice price_data | VList "pystr list" | VReviews "review list"

type_synonym product = "(pystr \<times> pyval) list"

text \<open>The loop that replaces every blank string value by \<open>None\<close>.\<close>

fun blank_to_none :: "pyval \<Rightarrow> pyval" where
  "blank_to_none (VStr s) = (if strip s = [] then VNone else VStr s)"
| "blank_to_none v = v"

definition normalize :: "product \<Rightarrow> product" where
  "normalize product_data = map (\<lambda>(key, v). (key, blank_to_none v)) product_data"

datatype level = INFO | WARNING | ERROR

datatype message =
    Fetching_links pystr | Found_links nat | Error_links
  | Parsing pystr | Error_parsing pystr
  | Saved pystr pystr | Error_saving
  | Starting | Processing nat nat pystr | Completed nat | No_products

datatype event = Log level message | Write_file pystr "product list"

text \<open>
  \<open>fetch url\<close> stands for the request, the status check and the HTML parser together:
  \<open>None\<close> when any of them raises, the parsed document otherwise. \<open>now\<close> is what
  \<open>datetime.now().isoformat()\<close> returns. A result is the events in the order they
  happen, and the value returned.
\<close>

definition product_data_of :: "soup \<Rightarrow> pystr \<Rightarrow> pystr \<Rightarrow> product" where
  "product_data_of doc url now =
     (let name = get_name doc;
          manufacturer = get_manufacturer doc;
          price = get_price doc;
          category = get_category doc;
          images = get_images doc;
          weight = get_weight doc;
          (description, doc1) = get_tab_content doc (py ''product-des'');
          (composition, doc2) = get_tab_content doc1 (py ''product-composition'');
          (analysis, doc3) = get_tab_content doc2 (py ''product-analysis'');
          (feeding_norm, doc4) = get_tab_content doc3 (py ''product-feeding_rates'');
          reviews = get_reviews doc4
      in [(py ''name'', VStr name),
          (py ''manufacturer'', VStr manufacturer),
          (py ''price'', VPrice price),
          (py ''category'', VStr category),
          (py ''images'', VList images),
          (py ''weight'', VList weight),
          (py ''description'', VStr description),
          (py ''composition'', VStr composition),
          (py ''analysis'', VStr analysis),
          (py ''feeding_norm'', VStr feeding_norm),
          (py ''reviews'', VReviews reviews),
          (py ''url'', VStr url),
          (py ''parsed_date'', VStr now)])"

definition parse_product ::
  "(pystr \<Rightarrow> soup option) \<Rightarrow> pystr \<Rightarrow> pystr \<Rightarrow> event list \<times> product option" where
  "parse_product fetch now url =
     (case fetch url of
        None \<Rightarrow> ([Log INFO (Parsing url), Log ERROR (Error_parsing url)], None)
      | Some doc \<Rightarrow> ([Log INFO (Parsing url)], Some (normalize (product_data_of doc url now))))"

section \<open>Listing page, persistence and the run\<close>

definition base_url :: pystr where
  "base_url = py ''https://zoomagia.ru''"

definition sale_url :: pystr where
  "sale_url = base_url @ py ''/shop/sale''"

fun add_links :: "pystr list \<Rightarrow> tag list \<Rightarrow> pystr list" where
  "add_links product_links [] = product_links"
| "add_links product_links (p # products) =
     (case tag_select_one p [[Tag (py ''a''), Class (py ''title'')]] of
        Some link \<Rightarrow>
          (case get_attr link (py ''href'') of
             Some href \<Rightarrow>
               (if href \<noteq> []
                then (let full_url = (if startswith href (py ''http'') then href
                                      else base_url @ href)
                      in add_links (product_links @ [full_url]) products)
                else add_links product_links products)
           | None \<Rightarrow> add_links product_links products)
      | None \<Rightarrow> add_links product_links products)"

definition links_of :: "soup \<Rightarrow> pystr list" where
  "links_of doc = add_links [] (select doc [[Class (py ''grid-product'')]])"

definition get_product_links :: "(pystr \<Rightarrow> soup option) \<Rightarrow> event list \<times> pystr list" where
  "get_product_links fetch =
     (case fetch sale_url of
        None \<Rightarrow> ([Log INFO (Fetching_links sale_url), Log ERROR Error_links], [])
      | Some doc \<Rightarrow>
          (let product_links = links_of doc
           in ([Log INFO (Fetching_links sale_url),
                Log INFO (Found_links (length product_links))], product_links)))"

text \<open>
  The environment of a run: the network, the clock (\<open>clock i\<close> is the time read while
  the link at index \<open>i\<close> is parsed, \<open>stamp\<close> the time in the file name) and the file
  system (\<open>write_ok f\<close>: opening and writing the file \<open>f\<close> does not raise).
\<close>

record env =
  fetch :: "pystr \<Rightarrow> soup option"
  clock :: "nat \<Rightarrow> pystr"
  stamp :: pystr
  write_ok :: "pystr \<Rightarrow> bool"

definition latest_file :: pystr where
  "latest_file = py ''output/zoomagia_products.json''"

definition stamped_file :: "pystr \<Rightarrow> pystr" where
  "stamped_file timestamp = py ''output/zoomagia_products_'' @ timestamp @ py ''.json''"

definition save_to_json :: "env \<Rightarrow> product list \<Rightarrow> event list" where
  "save_to_json e data =
     (let filename = latest_file;
          filename_with_timestamp = stamped_file (stamp e)
      in if \<not> write_ok e filename_with_timestamp then [Log ERROR Error_saving]
         else if \<not> write_ok e filename
         then [Write_file filename_with_timestamp data, Log ERROR Error_saving]
         else [Write_file filename_with_timestamp data, Write_file filename data,
               Log INFO (Saved filename filename_with_timestamp)])"

text \<open>The loop over the links: \<open>i\<close> is the index of the next link, \<open>n\<close> the number of
  links; the events and the batch so far are carried along.\<close>

fun process_links ::
  "env \<Rightarrow> nat \<Rightarrow> nat \<Rightarrow> event list \<times> product list \<Rightarrow> pystr list \<Rightarrow> event list \<times> product list"
  where
  "process_links e n i (evs, products_data) [] = (evs, products_data)"
| "process_links e n i (evs, products_data) (link # links) =
     (let (evs', product_data) = parse_product (fetch e) (clock e i) link;
          evs = evs @ [Log INFO (Processing (i + 1) n link)] @ evs'
      in case product_data of
           Some d \<Rightarrow>
             (if d \<noteq> [] then process_links e n (i + 1) (evs, products_data @ [d]) links
              else process_links e n (i + 1) (evs, products_data) links)
         | None \<Rightarrow> process_links e n (i + 1) (evs, products_data) links)"

definition run_batch :: "env \<Rightarrow> event list \<times> product list" where
  "run_batch e =
     (let (evs, product_links) = get_product_links (fetch e)
      in process_links e (length product_links) 0 (Log INFO Starting # evs, []) product_links)"

definition run_parser :: "env \<Rightarrow> event list" where
  "run_parser e =
     (let (evs, products_data) = run_batch e
      in if products_data \<noteq> []
         then evs @ save_to_json e products_data @ [Log INFO (Completed (length products_data))]
         else evs @ [Log WARNING No_products])"

section \<open>Example documents\<close>

definition ex_price_block :: tag where
  "ex_price_block =
     \<lparr>t_ancs = [],
      t_head = \<lparr>el_tag = py ''div'', el_classes = [py ''packing-price-item''], el_attrs = []\<rparr>,
      t_kids = [Elem \<lparr>el_tag = py ''span'', el_classes = [py ''price-del''], el_attrs = []\<rparr>
                  [Text (py ''2000 '' @ [RUBLE])],
                Text (py ''1500 '' @ [RUBLE])]\<rparr>"

definition ex_price_doc :: soup where
  "ex_price_doc = [Elem (t_head ex_price_block) (t_kids ex_price_block)]"

definition ex_plain_block :: tag where
  "ex_plain_block =
     \<lparr>t_ancs = [],
      t_head = \<lparr>el_tag = py ''div'', el_classes = [py ''packing-price-item''], el_attrs = []\<rparr>,
      t_kids = [Text (py ''1500 '' @ [RUBLE])]\<rparr>"

definition ex_plain_doc :: soup where
  "ex_plain_doc = [Elem (t_head ex_plain_block) (t_kids ex_plain_block)]"

definition ex_title :: "pystr \<Rightarrow> tag" where
  "ex_title s = \<lparr>t_ancs = [], t_head = \<lparr>el_tag = py ''title'', el_classes = [], el_attrs = []\<rparr>,
                 t_kids = [Text s]\<rparr>"

definition ex_name_doc :: "pystr \<Rightarrow> soup" where
  "ex_name_doc s =
     [Elem (t_head (ex_title s)) (t_kids (ex_title s)),
      Elem \<lparr>el_tag = py ''h1'', el_classes = [], el_attrs = []\<rparr> [Text (py ''Bar'')]]"

definition ex_img :: "string list \<Rightarrow> pystr \<Rightarrow> head" where
  "ex_img cls src = \<lparr>el_tag = py ''img'', el_classes = map py cls, el_attrs = [(py ''src'', src)]\<rparr>"

definition ex_gallery :: "pystr list \<Rightarrow> node" where
  "ex_gallery srcs =
     Elem \<lparr>el_tag = py ''div'', el_classes = [py ''simpleLens-thumbnails-container''], el_attrs = []\<rparr>
       (map (\<lambda>s. Elem (ex_img [] s) []) srcs)"

definition ex_images_doc :: "pystr \<Rightarrow> pystr list \<Rightarrow> soup" where
  "ex_images_doc big srcs = [Elem (ex_img [''simpleLens-big-image''] big) [], ex_gallery srcs]"

definition ex_anchor :: "(pystr \<times> pystr) list \<Rightarrow> node" where
  "ex_anchor attrs = Elem \<lparr>el_tag = py ''a'', el_classes = [], el_attrs = attrs\<rparr> []"

definition ex_item :: "node list \<Rightarrow> node" where
  "ex_item anchors =
     Elem \<lparr>el_tag = py ''div'', el_classes = [py ''grid-product''], el_attrs = []\<rparr>
       [Elem \<lparr>el_tag = py ''div'', el_classes = [py ''title''], el_attrs = []\<rparr> anchors]"

definition ex_listing :: soup where
  "ex_listing = [ex_item [ex_anchor [(py ''href'', py ''/x'')]],
                 ex_item [ex_anchor [(py ''href'', py ''http://y'')]]]"

definition ex_bad_listing :: soup where
  "ex_bad_listing = [ex_item [ex_anchor [(py ''href'', [])]],
                     ex_item [ex_anchor [], ex_anchor [(py ''href'', py ''/x'')]]]"

definition ex_li :: "node list \<Rightarrow> node" where
  "ex_li kids = Elem \<lparr>el_tag = py ''li'', el_classes = [], el_attrs = []\<rparr> kids"

definition ex_comments :: "node list \<Rightarrow> soup" where
  "ex_comments items =
     [Elem \<lparr>el_tag = py ''ul'', el_classes = [py ''product-comments-block''], el_attrs = []\<rparr> items]"

definition ex_fetch :: "pystr \<Rightarrow> soup option" where
  "ex_fetch u = (if u = sale_url then Some ex_listing
                 else if u = py ''http://y'' then Some []
                 else None)"

definition ex_env :: "bool \<Rightarrow> env" where
  "ex_env ok = \<lparr>fetch = ex_fetch, clock = (\<lambda>i. py ''t''), stamp = py ''s'', write_ok = (\<lambda>f. ok)\<rparr>"

section \<open>Facts about strings\<close>

lemma py_eq_iff: "py a = py b \<longleftrightarrow> a = b"
  unfolding py_def by (simp add: inj_map_eq_map inj_def)

lemma py_Nil_iff: "py a = [] \<longleftrightarrow> a = []" "[] = py a \<longleftrightarrow> a = []"
  unfolding py_def by auto

lemma dropWhile_fix: "xs = [] \<or> \<not> P (hd xs) \<Longrightarrow> dropWhile P xs = xs"
  by (cases xs) auto

lemma hd_dropWhile_rev:
  assumes "dropWhile P (rev a) \<noteq> []" "a \<noteq> []"
  shows "hd (rev (dropWhile P (rev a))) = hd a"
proof -
  have "rev a = takeWhile P (rev a) @ dropWhile P (rev a)" by simp
  then have "a = rev (dropWhile P (rev a)) @ rev (takeWhile P (rev a))"
    by (metis rev_append rev_rev_ident)
  then show ?thesis using assms
    by (metis hd_append2 rev_is_Nil_conv)
qed

lemma strip_idem: "strip (strip s) = strip s"
proof -
  define a where "a = dropWhile isspace s"
  define b where "b = dropWhile isspace (rev a)"
  have s: "strip s = rev b" by (simp add: strip_def a_def b_def)
  have "dropWhile isspace (rev b) = rev b"
  proof (cases "b = []")
    case True then show ?thesis by simp
  next
    case False
    then have an: "a \<noteq> []" by (auto simp: b_def)
    then have "\<not> isspace (hd a)" unfolding a_def by (metis hd_dropWhile)
    moreover have "hd (rev b) = hd a" unfolding b_def using hd_dropWhile_rev False an b_def by blast
    ultimately show ?thesis by (intro dropWhile_fix) simp
  qed
  moreover have "dropWhile isspace b = b" by (simp add: b_def)
  ultimately show ?thesis unfolding s by (simp add: strip_def)
qed

lemma set_strip: "set (strip s) \<subseteq> set s"
  unfolding strip_def by (metis set_rev set_dropWhileD subsetI)

lemma replace_single: "replace_empty s [c] = filter (\<lambda>x. x \<noteq> c) s"
  unfolding replace_empty_def by (induction s) auto

lemma split_on_hd: "\<exists>ws. split_on c s = takeWhile (\<lambda>x. x \<noteq> c) s # ws"
  by (induction s) auto

lemma split_on_case:
  "(case split_on c s of [] \<Rightarrow> d | w # ws \<Rightarrow> f w) = f (takeWhile (\<lambda>x. x \<noteq> c) s)"
  using split_on_hd [of c s] by auto

lemma split_on_nonempty: "split_on c s \<noteq> []"
  by (cases s) (auto split: list.splits)

text \<open>
  What the price extractor computes when the pricing block is present. With a
  struck-through price element, \<open>old_price\<close> is its trimmed text and \<open>current_price\<close> is
  the block's trimmed text with that old price and the rouble sign replaced by the empty
  string, trimmed again; without one, both stay the empty string. \<open>discount\<close> is the
  trimmed text of the discount badge when there is one, the empty string otherwise.
\<close>

lemma get_price_with_block:
  assumes "select_one doc [[Class (py ''packing-price-item'')]] = Some price_block"
  shows "(case tag_select_one price_block [[Class (py ''price-del'')]] of
            Some old_el \<Rightarrow>
              old_price (get_price doc) = strip (text_of old_el) \<and>
              current_price (get_price doc) =
                strip (filter (\<lambda>c. c \<noteq> RUBLE)
                         (replace_empty (strip (text_of price_block)) (strip (text_of old_el))))
          | None \<Rightarrow> old_price (get_price doc) = [] \<and> current_price (get_price doc) = []) \<and>
         (case tag_select_one price_block [[Class (py ''price-customer-discount-badge'')]] of
            Some discount_block \<Rightarrow> discount (get_price doc) = strip (text_of discount_block)
          | None \<Rightarrow> discount (get_price doc) = []) \<and>
         RUBLE \<notin> set (current_price (get_price doc))"
proof -
  have "RUBLE \<notin> set (strip (filter (\<lambda>c. c \<noteq> RUBLE) xs))" for xs
    using set_strip [of "filter (\<lambda>c. c \<noteq> RUBLE) xs"] by auto
  then show ?thesis using assms
    by (auto simp: get_price_def Let_def replace_single split: option.splits)
qed


section \<open>The price extractor\<close>

lemmas sel_defs = select_one_def select_def soup_tags_def first_def sel_match_def
  tag_select_one_def tag_select_def tag_tags_def find_tag_def find_tag_attr_def get_attr_def

lemmas str_defs = text_of_def strip_def isspace_def py_def RUBLE_def DASH_def
  replace_empty_def

text \<open>The block of the specification's scenario: old price \<open>2000 R\<close>, full text
  \<open>2000 R1500 R\<close> (\<open>R\<close> the rouble sign) gives the current price \<open>1500\<close>.\<close>

lemma get_price_scenario:
  "select_one ex_price_doc [[Class (py ''packing-price-item'')]] = Some ex_price_block \<and>
   old_price (get_price ex_price_doc) = py ''2000 '' @ [RUBLE] \<and>
   current_price (get_price ex_price_doc) = py ''1500''"
proof -
  have h: "select_one ex_price_doc [[Class (py ''packing-price-item'')]] = Some ex_price_block"
    by (simp add: ex_price_doc_def ex_price_block_def sel_defs py_eq_iff)
  have o: "tag_select_one ex_price_block [[Class (py ''price-del'')]] =
     Some \<lparr>t_ancs = [t_head ex_price_block],
           t_head = \<lparr>el_tag = py ''span'', el_classes = [py ''price-del''], el_attrs = []\<rparr>,
           t_kids = [Text (py ''2000 '' @ [RUBLE])]\<rparr>"
    by (simp add: ex_price_block_def sel_defs py_eq_iff)
  have r: "old_price (get_price ex_price_doc) = strip (py ''2000 '' @ [RUBLE]) \<and>
     current_price (get_price ex_price_doc) =
       strip (filter (\<lambda>c. c \<noteq> RUBLE)
                (replace_empty (strip (text_of ex_price_block)) (strip (py ''2000 '' @ [RUBLE]))))"
    using get_price_with_block [OF h] by (simp add: o text_of_def)
  have "strip (py ''2000 '' @ [RUBLE]) = py ''2000 '' @ [RUBLE]"
    by (simp add: strip_def isspace_def py_def RUBLE_def)
  moreover have "strip (text_of ex_price_block) = py ''2000 '' @ [RUBLE] @ py ''1500 '' @ [RUBLE]"
    by (simp add: ex_price_block_def text_of_def strip_def isspace_def py_def RUBLE_def)
  moreover have "strip (filter (\<lambda>c. c \<noteq> RUBLE)
      (replace_empty (py ''2000 '' @ [RUBLE] @ py ''1500 '' @ [RUBLE]) (py ''2000 '' @ [RUBLE]))) =
      py ''1500''"
    by (simp add: replace_empty_def strip_def isspace_def py_def RUBLE_def)
  ultimately show ?thesis using h r by simp
qed

text \<open>
  Claim C1 says that, for every page with a pricing block, \<open>current_price\<close> is the block's
  full text with the old-price substring and a currency symbol removed, then trimmed.
  The source's comment above the computation says the same (the current price is the
  whole text without the old price), and the block's text is read before the test for
  the old price; but the value is assigned only when the struck-through element exists.
  For the block \<open>1500 R\<close> (\<open>R\<close> the rouble sign) with no struck-through element, removing
  the currency symbol and trimming gives \<open>1500\<close>, and the extractor returns the empty
  string.
\<close>

theorem C1_no_old_price:
  "select_one ex_plain_doc [[Class (py ''packing-price-item'')]] = Some ex_plain_block \<and>
   tag_select_one ex_plain_block [[Class (py ''price-del'')]] = None \<and>
   strip (replace_empty (replace_empty (strip (text_of ex_plain_block)) []) [RUBLE]) = py ''1500'' \<and>
   current_price (get_price ex_plain_doc) = []"
  by (simp add: ex_plain_doc_def ex_plain_block_def sel_defs py_eq_iff get_price_def
      text_of_def strip_def isspace_def RUBLE_def replace_empty_def py_def)

text \<open>
  Claim C2, as the code has it. The name is the part of the title's trimmed text before
  its first dash U+2013, trimmed, when there is a title and its trimmed text contains
  the dash; in every other case (no title, or a title without the dash) it is the
  trimmed text of the first \<open>h1\<close>, and empty when there is none.
\<close>

theorem C2_name:
  "get_name doc =
     (let from_h1 = (case find_tag doc (py ''h1'') of
                       Some h1 \<Rightarrow> strip (text_of h1)
                     | None \<Rightarrow> [])
      in case find_tag doc (py ''title'') of
           Some title \<Rightarrow>
             if DASH \<in> set (strip (text_of title))
             then strip (takeWhile (\<lambda>c. c \<noteq> DASH) (strip (text_of title)))
             else from_h1
         | None \<Rightarrow> from_h1)"
  by (simp add: get_name_def Let_def split_on_case split: option.splits)

text \<open>A title \<open>Foo - shop\<close> (with the dash U+2013) gives the name \<open>Foo\<close>.\<close>

theorem C2_witness:
  "get_name (ex_name_doc (py ''Foo '' @ [DASH] @ py '' shop'')) = py ''Foo''"
  using C2_name [of "ex_name_doc (py ''Foo '' @ [DASH] @ py '' shop'')"]
  by (simp add: ex_name_doc_def ex_title_def sel_defs str_defs Let_def)

text \<open>A document with the title \<open>Foo\<close> (no dash) and the heading \<open>Bar\<close>: the title is
  present, yet the name is the heading's text.\<close>

theorem C2_counterexample:
  "find_tag (ex_name_doc (py ''Foo'')) (py ''title'') = Some (ex_title (py ''Foo'')) \<and>
   strip (text_of (ex_title (py ''Foo''))) = py ''Foo'' \<and>
   DASH \<notin> set (py ''Foo'') \<and>
   get_name (ex_name_doc (py ''Foo'')) = py ''Bar''"
  by (simp add: ex_name_doc_def ex_title_def sel_defs str_defs get_name_def Let_def)

section \<open>The image list\<close>

lemma remdups_snoc: "remdups (ys @ [s]) = filter (\<lambda>x. x \<noteq> s) (remdups ys) @ [s]"
  by (induction ys) auto

lemma first_occurrences_Cons:
  "rev (remdups (rev (s # xs))) = s # rev (remdups (rev (filter (\<lambda>x. x \<noteq> s) xs)))"
  by (simp add: remdups_snoc remdups_filter rev_filter)

lemma add_thumbnails_eq:
  "add_thumbnails images imgs =
     images @ rev (remdups (rev (filter (\<lambda>s. s \<noteq> [] \<and> s \<notin> set images)
                                   (List.map_filter (\<lambda>img. get_attr img (py ''src'')) imgs))))"
proof (induction imgs arbitrary: images)
  case Nil
  then show ?case by simp
next
  case (Cons img imgs)
  show ?case
  proof (cases "get_attr img (py ''src'')")
    case None
    then show ?thesis using Cons.IH [of images] by simp
  next
    case (Some src)
    show ?thesis
    proof (cases "src \<noteq> [] \<and> src \<notin> set images")
      case True
      have "(\<lambda>s. s \<noteq> [] \<and> s \<notin> set (images @ [src])) = (\<lambda>s. (s \<noteq> [] \<and> s \<notin> set images) \<and> s \<noteq> src)"
        by auto
      then show ?thesis using Some True Cons.IH [of "images @ [src]"]
        by (simp add: first_occurrences_Cons del: remdups.simps rev.simps)
    next
      case False
      then show ?thesis using Some Cons.IH [of images] by auto
    qed
  qed
qed

lemma main_image_src_cases:
  "main_image_src doc = [] \<or> (\<exists>m s. select_one doc [[Class (py ''simpleLens-big-image'')]] = Some m \<and>
      get_attr m (py ''src'') = Some s \<and> s \<noteq> [] \<and> main_image_src doc = [s])"
  by (auto simp: main_image_src_def split: option.splits)

text \<open>
  Claim C4, as the code has it. The image list never holds a string twice. When the
  first big-image element has a non-empty \<open>src\<close>, that \<open>src\<close> is at index 0. The rest of
  the list is the non-empty \<open>src\<close> values of the thumbnails in document order, each kept
  at its first occurrence and skipped when it is the main image's.
\<close>

theorem C4_images:
  "distinct (get_images doc) \<and>
   (\<forall>m s. select_one doc [[Class (py ''simpleLens-big-image'')]] = Some m \<and>
          get_attr m (py ''src'') = Some s \<and> s \<noteq> [] \<longrightarrow>
          main_image_src doc = [s] \<and> get_images doc \<noteq> [] \<and> get_images doc ! 0 = s) \<and>
   get_images doc =
     main_image_src doc @
     rev (remdups (rev (filter (\<lambda>s. s \<noteq> [] \<and> s \<notin> set (main_image_src doc))
            (List.map_filter (\<lambda>img. get_attr img (py ''src''))
               (select doc [[Tag (py ''img''), Class (py ''simpleLens-thumbnails-container'')]])))))"
proof -
  let ?thumbs = "select doc [[Tag (py ''img''), Class (py ''simpleLens-thumbnails-container'')]]"
  let ?rest = "rev (remdups (rev (filter (\<lambda>s. s \<noteq> [] \<and> s \<notin> set (main_image_src doc))
            (List.map_filter (\<lambda>img. get_attr img (py ''src'')) ?thumbs))))"
  have eq: "get_images doc = main_image_src doc @ ?rest"
    by (simp add: get_images_def add_thumbnails_eq)
  have d1: "distinct (main_image_src doc)"
    using main_image_src_cases [of doc] by auto
  have d2: "distinct ?rest" by simp
  have d3: "set (main_image_src doc) \<inter> set ?rest = {}" by auto
  have "distinct (get_images doc)" unfolding eq using d1 d2 d3 by (simp only: distinct_append simp_thms)
  moreover have "main_image_src doc = [s] \<and> get_images doc \<noteq> [] \<and> get_images doc ! 0 = s"
    if "select_one doc [[Class (py ''simpleLens-big-image'')]] = Some m"
       "get_attr m (py ''src'') = Some s" "s \<noteq> []" for m s
  proof -
    have "main_image_src doc = [s]" using that by (simp add: main_image_src_def)
    then show ?thesis unfolding eq by simp
  qed
  ultimately show ?thesis using eq by blast
qed

text \<open>A main image \<open>m\<close> and the thumbnails \<open>a\<close>, \<open>m\<close>, \<open>a\<close>, \<open>b\<close> give \<open>m\<close>, \<open>a\<close>, \<open>b\<close>.\<close>

theorem C4_witness:
  "get_images (ex_images_doc (py ''m'') [py ''a'', py ''m'', py ''a'', py ''b'']) =
     [py ''m'', py ''a'', py ''b'']"
proof -
  let ?doc = "ex_images_doc (py ''m'') [py ''a'', py ''m'', py ''a'', py ''b'']"
  have m: "select_one ?doc [[Class (py ''simpleLens-big-image'')]] =
           Some \<lparr>t_ancs = [], t_head = ex_img [''simpleLens-big-image''] (py ''m''), t_kids = []\<rparr>"
    by (simp add: ex_images_doc_def ex_gallery_def ex_img_def sel_defs py_eq_iff)
  have s: "get_attr \<lparr>t_ancs = [], t_head = ex_img [''simpleLens-big-image''] (py ''m''), t_kids = []\<rparr>
             (py ''src'') = Some (py ''m'')"
    by (simp add: ex_img_def get_attr_def)
  have mm: "main_image_src ?doc = [py ''m'']"
    using C4_images [of ?doc] m s by (simp add: py_Nil_iff)
  have "List.map_filter (\<lambda>img. get_attr img (py ''src''))
          (select ?doc [[Tag (py ''img''), Class (py ''simpleLens-thumbnails-container'')]]) =
        [py ''a'', py ''m'', py ''a'', py ''b'']"
    by (simp add: ex_images_doc_def ex_gallery_def ex_img_def sel_defs py_eq_iff)
  then show ?thesis using C4_images [of ?doc] mm by (simp add: py_eq_iff py_Nil_iff)
qed

text \<open>A big-image element and a first thumbnail whose \<open>src\<close> attributes are present but
  empty, and a second thumbnail \<open>a\<close>: neither empty \<open>src\<close> is in the list, whose index 0
  holds \<open>a\<close>.\<close>

theorem C4_counterexample:
  "select_one (ex_images_doc [] [[], py ''a'']) [[Class (py ''simpleLens-big-image'')]] =
     Some \<lparr>t_ancs = [], t_head = ex_img [''simpleLens-big-image''] [], t_kids = []\<rparr> \<and>
   get_attr \<lparr>t_ancs = [], t_head = ex_img [''simpleLens-big-image''] [], t_kids = []\<rparr> (py ''src'') =
     Some [] \<and>
   List.map_filter (\<lambda>img. get_attr img (py ''src''))
     (select (ex_images_doc [] [[], py ''a''])
        [[Tag (py ''img''), Class (py ''simpleLens-thumbnails-container'')]]) = [[], py ''a''] \<and>
   get_images (ex_images_doc [] [[], py ''a'']) = [py ''a''] \<and>
   get_images (ex_images_doc [] [[], py ''a'']) ! 0 \<noteq> []"
  by (simp add: ex_images_doc_def ex_gallery_def ex_img_def sel_defs py_eq_iff py_Nil_iff
      get_images_def main_image_src_def)

section \<open>The listing page\<close>

lemma add_links_eq:
  assumes "\<forall>p \<in> set ps. \<exists>a h. tag_select_one p [[Tag (py ''a''), Class (py ''title'')]] = Some a \<and>
             get_attr a (py ''href'') = Some h \<and> h \<noteq> []"
  shows "add_links acc ps =
           acc @ map (\<lambda>p. let h = the (get_attr (the (tag_select_one p
                                      [[Tag (py ''a''), Class (py ''title'')]])) (py ''href''))
                           in if startswith h (py ''http'') then h else base_url @ h) ps"
  using assms
proof (induction ps arbitrary: acc)
  case Nil
  then show ?case by simp
next
  case (Cons p ps)
  from Cons.prems obtain a h where
    "tag_select_one p [[Tag (py ''a''), Class (py ''title'')]] = Some a"
    "get_attr a (py ''href'') = Some h" "h \<noteq> []" by auto
  moreover have "\<forall>p \<in> set ps. \<exists>a h. tag_select_one p [[Tag (py ''a''), Class (py ''title'')]] = Some a \<and>
             get_attr a (py ''href'') = Some h \<and> h \<noteq> []" using Cons.prems by simp
  ultimately show ?case using Cons.IH by (simp add: Let_def)
qed

text \<open>
  Claim C5, as the code has it. When the listing page is fetched and, in each of its
  \<open>N\<close> product items, the first title anchor has a non-empty \<open>href\<close>, link extraction
  returns \<open>N\<close> URLs, the one at index \<open>i\<close> made from the \<open>href\<close> of item \<open>i\<close>: kept as it is
  when it starts with \<open>http\<close>, prefixed with the base origin otherwise.
\<close>

theorem C5_links:
  assumes "fetcher sale_url = Some doc"
    and "\<forall>p \<in> set (select doc [[Class (py ''grid-product'')]]).
           \<exists>a h. tag_select_one p [[Tag (py ''a''), Class (py ''title'')]] = Some a \<and>
                 get_attr a (py ''href'') = Some h \<and> h \<noteq> []"
  shows "length (snd (get_product_links fetcher)) = length (select doc [[Class (py ''grid-product'')]]) \<and>
         (\<forall>i < length (select doc [[Class (py ''grid-product'')]]).
            \<exists>a h. tag_select_one (select doc [[Class (py ''grid-product'')]] ! i)
                     [[Tag (py ''a''), Class (py ''title'')]] = Some a \<and>
                  get_attr a (py ''href'') = Some h \<and>
                  snd (get_product_links fetcher) ! i =
                    (if startswith h (py ''http'') then h else base_url @ h))"
proof -
  let ?items = "select doc [[Class (py ''grid-product'')]]"
  have eq: "snd (get_product_links fetcher) =
      map (\<lambda>p. let h = the (get_attr (the (tag_select_one p
                                      [[Tag (py ''a''), Class (py ''title'')]])) (py ''href''))
                in if startswith h (py ''http'') then h else base_url @ h) ?items"
    using assms(1) add_links_eq [OF assms(2), of "[]"]
    by (simp add: get_product_links_def links_of_def Let_def)
  have "\<exists>a h. tag_select_one (?items ! i) [[Tag (py ''a''), Class (py ''title'')]] = Some a \<and>
                  get_attr a (py ''href'') = Some h \<and>
                  snd (get_product_links fetcher) ! i =
                    (if startswith h (py ''http'') then h else base_url @ h)"
    if "i < length ?items" for i
  proof -
    from that assms(2) obtain a h where
      "tag_select_one (?items ! i) [[Tag (py ''a''), Class (py ''title'')]] = Some a"
      "get_attr a (py ''href'') = Some h" "h \<noteq> []"
      by (meson nth_mem)
    then show ?thesis using that by (simp add: eq Let_def)
  qed
  then show ?thesis by (simp add: eq)
qed

lemma ex_listing_items:
  "select ex_listing [[Class (py ''grid-product'')]] =
     [\<lparr>t_ancs = [], t_head = \<lparr>el_tag = py ''div'', el_classes = [py ''grid-product''], el_attrs = []\<rparr>,
       t_kids = [Elem \<lparr>el_tag = py ''div'', el_classes = [py ''title''], el_attrs = []\<rparr>
                   [ex_anchor [(py ''href'', py ''/x'')]]]\<rparr>,
      \<lparr>t_ancs = [], t_head = \<lparr>el_tag = py ''div'', el_classes = [py ''grid-product''], el_attrs = []\<rparr>,
       t_kids = [Elem \<lparr>el_tag = py ''div'', el_classes = [py ''title''], el_attrs = []\<rparr>
                   [ex_anchor [(py ''href'', py ''http://y'')]]]\<rparr>]"
  by (simp add: ex_listing_def ex_item_def ex_anchor_def sel_defs py_eq_iff)

text \<open>Two items, with the links \<open>/x\<close> and \<open>http://y\<close>.\<close>

theorem C5_witness:
  "length (snd (get_product_links (\<lambda>u. Some ex_listing))) = 2 \<and>
   snd (get_product_links (\<lambda>u. Some ex_listing)) = [base_url @ py ''/x'', py ''http://y'']"
proof -
  have h: "\<forall>p \<in> set (select ex_listing [[Class (py ''grid-product'')]]).
           \<exists>a h. tag_select_one p [[Tag (py ''a''), Class (py ''title'')]] = Some a \<and>
                 get_attr a (py ''href'') = Some h \<and> h \<noteq> []"
    unfolding ex_listing_items by (simp add: ex_anchor_def sel_defs py_eq_iff py_Nil_iff)
  have "length (snd (get_product_links (\<lambda>u. Some ex_listing))) = 2"
    using C5_links [of "\<lambda>u. Some ex_listing" ex_listing, OF _ h] by (simp add: ex_listing_items)
  moreover have "links_of ex_listing = [base_url @ py ''/x'', py ''http://y'']"
    unfolding links_of_def ex_listing_items
    by (simp add: ex_anchor_def sel_defs py_eq_iff py_Nil_iff py_def)
  then have "snd (get_product_links (\<lambda>u. Some ex_listing)) = [base_url @ py ''/x'', py ''http://y'']"
    by (simp add: get_product_links_def Let_def)
  ultimately show ?thesis by simp
qed

text \<open>Two items: the title anchor of the first has an empty \<open>href\<close>; the second holds a
  title anchor without \<open>href\<close> before one with the \<open>href\<close> \<open>/x\<close>. Each item contains a
  title anchor with an \<open>href\<close> attribute, and no URL is returned.\<close>

theorem C5_counterexample:
  "map (\<lambda>p. map (\<lambda>a. get_attr a (py ''href''))
              (tag_select p [[Tag (py ''a''), Class (py ''title'')]]))
     (select ex_bad_listing [[Class (py ''grid-product'')]]) =
     [[Some []], [None, Some (py ''/x'')]] \<and>
   snd (get_product_links (\<lambda>u. Some ex_bad_listing)) = []"
  by (simp add: get_product_links_def links_of_def ex_bad_listing_def ex_item_def ex_anchor_def
      sel_defs py_eq_iff py_Nil_iff Let_def)

section \<open>Reviews and weights\<close>

lemma join_empty: "join [] xs = concat xs"
  by (induction "[] :: pystr" xs rule: join.induct) auto

lemma add_reviews_eq:
  "add_reviews reviews items = reviews @ map (\<lambda>r. Review (get_text_strip [] r)) items"
  by (induction items arbitrary: reviews) auto

lemma add_weights_eq:
  "add_weights weights items =
     weights @ filter (\<lambda>w. w \<noteq> []) (map (\<lambda>i. strip (text_of i)) items)"
  by (induction items arbitrary: weights) (auto simp: Let_def)

text \<open>
  Claim C10, as the code has it. The reviews list has one record per item of the
  comments list, in document order; the text of a record is the item's strings, each
  trimmed, the empty ones dropped, the rest concatenated with nothing between them.
  For an item with at most one string that is the item's trimmed text. No item is
  dropped, whereas the weight extractor drops the items whose trimmed text is empty.
\<close>

theorem C10_reviews:
  "length (get_reviews doc) =
     length (select doc [[Tag (py ''li''), Class (py ''product-comments-block'')]]) \<and>
   map review_text (get_reviews doc) =
     map (\<lambda>item. concat (filter (\<lambda>s. s \<noteq> [])
                            (map strip (concat (map strings (t_kids item))))))
       (select doc [[Tag (py ''li''), Class (py ''product-comments-block'')]]) \<and>
   (\<forall>i < length (select doc [[Tag (py ''li''), Class (py ''product-comments-block'')]]).
      length (concat (map strings
        (t_kids (select doc [[Tag (py ''li''), Class (py ''product-comments-block'')]] ! i)))) \<le> 1 \<longrightarrow>
      review_text (get_reviews doc ! i) =
        strip (text_of (select doc [[Tag (py ''li''), Class (py ''product-comments-block'')]] ! i))) \<and>
   get_weight doc =
     filter (\<lambda>w. w \<noteq> [])
       (map (\<lambda>item. strip (text_of item)) (select doc [[Class (py ''product-show-packing'')]]))"
proof -
  let ?items = "select doc [[Tag (py ''li''), Class (py ''product-comments-block'')]]"
  have eq: "get_reviews doc = map (\<lambda>r. Review (get_text_strip [] r)) ?items"
    by (simp add: get_reviews_def add_reviews_eq)
  have one: "concat (filter (\<lambda>s. s \<noteq> []) (map strip ss)) = strip (concat ss)"
    if "length ss \<le> 1" for ss :: "pystr list"
  proof (cases ss)
    case Nil
    then show ?thesis by (simp add: strip_def)
  next
    case (Cons s rest)
    with that have "rest = []" by simp
    with Cons show ?thesis by simp
  qed
  have "review_text (get_reviews doc ! i) = strip (text_of (?items ! i))"
    if "i < length ?items" "length (concat (map strings (t_kids (?items ! i)))) \<le> 1" for i
    using that one [OF that(2)]
    by (simp add: eq get_text_strip_def join_empty text_of_def)
  moreover have "map review_text (get_reviews doc) =
     map (\<lambda>item. concat (filter (\<lambda>s. s \<noteq> [])
                            (map strip (concat (map strings (t_kids item)))))) ?items"
    by (simp add: eq get_text_strip_def join_empty comp_def)
  moreover have "get_weight doc =
     filter (\<lambda>w. w \<noteq> [])
       (map (\<lambda>item. strip (text_of item)) (select doc [[Class (py ''product-show-packing'')]]))"
    by (simp add: get_weight_def add_weights_eq)
  ultimately show ?thesis by (simp add: eq)
qed

lemma ex_comment_items:
  "select (ex_comments [ex_li [Text (py '' hi '')], ex_li []])
          [[Tag (py ''li''), Class (py ''product-comments-block'')]] =
     [\<lparr>t_ancs = [\<lparr>el_tag = py ''ul'', el_classes = [py ''product-comments-block''], el_attrs = []\<rparr>],
       t_head = \<lparr>el_tag = py ''li'', el_classes = [], el_attrs = []\<rparr>,
       t_kids = [Text (py '' hi '')]\<rparr>,
      \<lparr>t_ancs = [\<lparr>el_tag = py ''ul'', el_classes = [py ''product-comments-block''], el_attrs = []\<rparr>],
       t_head = \<lparr>el_tag = py ''li'', el_classes = [], el_attrs = []\<rparr>,
       t_kids = []\<rparr>]"
  by (simp add: ex_comments_def ex_li_def sel_defs py_eq_iff)

text \<open>Two items, one with the text \<open> hi \<close> and one with no text: two records, the second
  with an empty text.\<close>

theorem C10_witness:
  "map review_text (get_reviews (ex_comments [ex_li [Text (py '' hi '')], ex_li []])) =
     [py ''hi'', []]"
  using C10_reviews [of "ex_comments [ex_li [Text (py '' hi '')], ex_li []]"]
  unfolding ex_comment_items
  by (simp add: strip_def isspace_def py_def)

text \<open>An item \<open>a <b>b</b></li>\<close> with the strings \<open>a \<close> and \<open>b\<close>: its trimmed text is \<open>a b\<close>,
  the record holds \<open>ab\<close>.\<close>

theorem C10_counterexample:
  "map (\<lambda>item. strip (text_of item))
     (select (ex_comments [ex_li [Text (py ''a ''),
                Elem \<lparr>el_tag = py ''b'', el_classes = [], el_attrs = []\<rparr> [Text (py ''b'')]]])
        [[Tag (py ''li''), Class (py ''product-comments-block'')]]) = [py ''a b''] \<and>
   get_reviews (ex_comments [ex_li [Text (py ''a ''),
                Elem \<lparr>el_tag = py ''b'', el_classes = [], el_attrs = []\<rparr> [Text (py ''b'')]]]) =
     [Review (py ''ab'')]"
  by (simp add: get_reviews_def ex_comments_def ex_li_def sel_defs py_eq_iff
      get_text_strip_def str_defs)

section \<open>The price field of the record\<close>

lemma map_of_normalize:
  "map_of (normalize product_data) key = map_option blank_to_none (map_of product_data key)"
  by (induction product_data) (auto simp: normalize_def)

lemma parse_product_price:
  "fetcher url = Some doc \<Longrightarrow>
   \<exists>r. snd (parse_product fetcher now url) = Some r \<and>
       map_of r (py ''price'') = Some (VPrice (get_price doc))"
  by (simp add: parse_product_def map_of_normalize product_data_of_def Let_def case_prod_beta
      py_eq_iff)

text \<open>
  Claim C9. For a fetched page without a pricing block, the record's \<open>price\<close> field is
  the nested record whose three fields are the empty string. For every fetched page the
  field is the nested record the price extractor returns, never \<open>None\<close>, the
  normalisation leaving it alone; inside a pricing block, \<open>old_price\<close> is the empty string when there is no
  struck-through element, and \<open>discount\<close> is the empty string when there is no badge.
\<close>

theorem C9_price_defaults:
  "(fetcher url = Some doc \<and> select_one doc [[Class (py ''packing-price-item'')]] = None \<longrightarrow>
      (\<exists>r. snd (parse_product fetcher now url) = Some r \<and>
           map_of r (py ''price'') =
             Some (VPrice \<lparr>old_price = [], current_price = [], discount = []\<rparr>))) \<and>
   (fetcher url = Some doc \<longrightarrow>
      (\<exists>r. snd (parse_product fetcher now url) = Some r \<and>
           map_of r (py ''price'') = Some (VPrice (get_price doc)))) \<and>
   (select_one doc [[Class (py ''packing-price-item'')]] = None \<longrightarrow>
      get_price doc = \<lparr>old_price = [], current_price = [], discount = []\<rparr>) \<and>
   (\<forall>price_block.
      select_one doc [[Class (py ''packing-price-item'')]] = Some price_block \<and>
      tag_select_one price_block [[Class (py ''price-del'')]] = None \<longrightarrow>
      old_price (get_price doc) = []) \<and>
   (\<forall>price_block.
      select_one doc [[Class (py ''packing-price-item'')]] = Some price_block \<and>
      tag_select_one price_block [[Class (py ''price-customer-discount-badge'')]] = None \<longrightarrow>
      discount (get_price doc) = [])"
  using parse_product_price [of fetcher url doc now]
  by (auto simp: get_price_def Let_def split: option.splits)

text \<open>The empty page has no pricing block: its record holds the price record of three
  empty strings. The block \<open>1500 R\<close> has neither a struck-through element nor a badge.\<close>

theorem C9_witness:
  "(\<exists>r. snd (parse_product (\<lambda>u. Some []) (py ''t'') (py ''u'')) = Some r \<and>
        map_of r (py ''price'') =
          Some (VPrice \<lparr>old_price = [], current_price = [], discount = []\<rparr>)) \<and>
   old_price (get_price ex_plain_doc) = [] \<and> discount (get_price ex_plain_doc) = []"
proof -
  have none: "select_one [] [[Class (py ''packing-price-item'')]] = None"
    by (simp add: sel_defs)
  have block: "select_one ex_plain_doc [[Class (py ''packing-price-item'')]] = Some ex_plain_block"
    by (simp add: ex_plain_doc_def ex_plain_block_def sel_defs py_eq_iff)
  have no_old: "tag_select_one ex_plain_block [[Class (py ''price-del'')]] = None"
    by (simp add: ex_plain_block_def sel_defs)
  have no_badge: "tag_select_one ex_plain_block [[Class (py ''price-customer-discount-badge'')]] = None"
    by (simp add: ex_plain_block_def sel_defs)
  have "\<exists>r. snd (parse_product (\<lambda>u. Some []) (py ''t'') (py ''u'')) = Some r \<and>
        map_of r (py ''price'') =
          Some (VPrice \<lparr>old_price = [], current_price = [], discount = []\<rparr>)"
    using C9_price_defaults [where fetcher = "\<lambda>u. Some []" and url = "py ''u''" and doc = "[]"
        and now = "py ''t''"] none
    by auto
  moreover have "old_price (get_price ex_plain_doc) = [] \<and> discount (get_price ex_plain_doc) = []"
    using C9_price_defaults [where doc = ex_plain_doc] block no_old no_badge by blast
  ultimately show ?thesis by simp
qed

section \<open>Determinism of the assembly\<close>


section \<open>The run\<close>

lemma parse_product_None: "snd (parse_product fetcher now url) = None \<longleftrightarrow> fetcher url = None"
  by (simp add: parse_product_def split: option.splits)

lemma parse_product_nonempty: "snd (parse_product fetcher now url) = Some d \<Longrightarrow> d \<noteq> []"
  by (auto simp: parse_product_def product_data_of_def normalize_def Let_def case_prod_beta
      split: option.splits)

lemma process_links_batch:
  "snd (process_links e n i (evs, products_data) links) =
     products_data @
     List.map_filter (\<lambda>(j, link). snd (parse_product (fetch e) (clock e j) link))
       (enumerate i links)"
proof (induction links arbitrary: i evs products_data)
  case Nil
  then show ?case by simp
next
  case (Cons link links)
  show ?case
  proof (cases "snd (parse_product (fetch e) (clock e i) link)")
    case None
    then show ?thesis using Cons.IH [of "Suc i"]
      by (simp add: case_prod_beta Let_def)
  next
    case (Some d)
    then have "d \<noteq> []" by (rule parse_product_nonempty)
    then show ?thesis using Some Cons.IH [of "Suc i"]
      by (simp add: case_prod_beta Let_def)
  qed
qed

lemma run_batch_eq:
  "snd (run_batch e) =
     List.map_filter (\<lambda>(i, link). snd (parse_product (fetch e) (clock e i) link))
       (enumerate 0 (snd (get_product_links (fetch e))))"
  by (simp add: run_batch_def case_prod_beta Let_def process_links_batch)

text \<open>
  Claim C7. The assembler returns no record exactly when the fetch of the page fails,
  and it returns in every case: a failure is a value, not an exception. The batch of a
  run is the records of the links whose assembly succeeds, in the order of the links:
  a link that fails contributes nothing and changes nothing for the others.
\<close>

theorem C7_batch:
  "(snd (parse_product fetcher now url) = None \<longleftrightarrow> fetcher url = None) \<and>
   snd (run_batch e) =
     List.map_filter (\<lambda>(i, link). snd (parse_product (fetch e) (clock e i) link))
       (enumerate 0 (snd (get_product_links (fetch e))))"
  using run_batch_eq [of e] by (simp add: parse_product_None)

lemma ex_links: "get_product_links ex_fetch =
    ([Log INFO (Fetching_links sale_url), Log INFO (Found_links 2)],
     [base_url @ py ''/x'', py ''http://y''])"
proof -
  have "links_of ex_listing = [base_url @ py ''/x'', py ''http://y'']"
    unfolding links_of_def ex_listing_items
    by (simp add: ex_anchor_def sel_defs py_eq_iff py_Nil_iff py_def)
  then show ?thesis by (simp add: get_product_links_def ex_fetch_def Let_def)
qed

lemma ex_pages:
  "ex_fetch (base_url @ py ''/x'') = None" "ex_fetch (py ''http://y'') = Some []"
  by (simp_all add: ex_fetch_def sale_url_def base_url_def py_def)

lemma ex_batch:
  "snd (run_batch (ex_env ok)) = [normalize (product_data_of [] (py ''http://y'') (py ''t''))]"
  by (simp add: run_batch_eq ex_env_def ex_links enumerate_eq_zip parse_product_def ex_pages
      upt_rec)

text \<open>A listing with the links \<open>/x\<close> and \<open>http://y\<close>, where the first page cannot be
  fetched: the batch is the record of the second page alone.\<close>

theorem C7_witness:
  "snd (get_product_links ex_fetch) = [base_url @ py ''/x'', py ''http://y''] \<and>
   snd (parse_product ex_fetch (py ''t'') (base_url @ py ''/x'')) = None \<and>
   map Some (snd (run_batch (ex_env True))) = [snd (parse_product ex_fetch (py ''t'') (py ''http://y''))]"
  using C7_batch [of ex_fetch "py ''t''" "base_url @ py ''/x''" "ex_env True"]
  by (simp add: ex_env_def ex_links enumerate_eq_zip parse_product_def ex_pages upt_rec)

section \<open>Persistence\<close>

lemma parse_product_events:
  "\<forall>ev \<in> set (fst (parse_product fetcher now url)). \<exists>m. ev = Log INFO m \<or> ev = Log ERROR m"
  by (simp add: parse_product_def split: option.splits)

lemma process_links_events:
  assumes "\<forall>ev \<in> set evs. \<exists>m. ev = Log INFO m \<or> ev = Log ERROR m"
  shows "\<forall>ev \<in> set (fst (process_links e n i (evs, products_data) links)).
           \<exists>m. ev = Log INFO m \<or> ev = Log ERROR m"
  using assms
proof (induction links arbitrary: i evs products_data)
  case Nil
  then show ?case by simp
next
  case (Cons link links)
  let ?evs = "evs @ [Log INFO (Processing (i + 1) n link)] @
              fst (parse_product (fetch e) (clock e i) link)"
  have "\<forall>ev \<in> set ?evs. \<exists>m. ev = Log INFO m \<or> ev = Log ERROR m"
    using Cons.prems parse_product_events [of "fetch e" "clock e i" link] by auto
  from Cons.IH [OF this] show ?case
    by (simp add: case_prod_beta Let_def split: option.splits)
qed

lemma run_batch_events:
  "\<forall>ev \<in> set (fst (run_batch e)). \<exists>m. ev = Log INFO m \<or> ev = Log ERROR m"
proof -
  have "\<forall>ev \<in> set (Log INFO Starting # fst (get_product_links (fetch e))).
          \<exists>m. ev = Log INFO m \<or> ev = Log ERROR m"
    by (simp add: get_product_links_def Let_def split: option.splits)
  from process_links_events [OF this] show ?thesis
    by (simp add: run_batch_def case_prod_beta)
qed

text \<open>
  Claim C6, as the code has it. The files written by a run: none when the batch is
  empty or the write of the timestamped file fails; the timestamped file alone when
  the write of the latest file fails; otherwise the timestamped file and then the
  latest file, each holding the batch. The warning is logged exactly when the batch is
  empty, which is the case when no link was discovered.
\<close>

theorem C6_persist:
  "filter (\<lambda>ev. case ev of Log l m \<Rightarrow> False | Write_file f d \<Rightarrow> True) (run_parser e) =
     (if snd (run_batch e) = [] \<or> \<not> write_ok e (stamped_file (stamp e)) then []
      else if \<not> write_ok e latest_file
      then [Write_file (stamped_file (stamp e)) (snd (run_batch e))]
      else [Write_file (stamped_file (stamp e)) (snd (run_batch e)),
            Write_file latest_file (snd (run_batch e))]) \<and>
   (Log WARNING No_products \<in> set (run_parser e) \<longleftrightarrow> snd (run_batch e) = []) \<and>
   (snd (get_product_links (fetch e)) = [] \<longrightarrow> snd (run_batch e) = [])"
proof -
  have ev: "\<forall>ev \<in> set (fst (run_batch e)). \<exists>m. ev = Log INFO m \<or> ev = Log ERROR m"
    by (rule run_batch_events)
  then have nw: "filter (\<lambda>ev. case ev of Log l m \<Rightarrow> False | Write_file f d \<Rightarrow> True)
                   (fst (run_batch e)) = []"
    by (auto simp: filter_empty_conv)
  have nwarn: "Log WARNING No_products \<notin> set (fst (run_batch e))"
    using ev by auto
  have nsave: "Log WARNING No_products \<notin> set (save_to_json e d)" for d
    by (simp add: save_to_json_def Let_def)
  have "filter (\<lambda>ev. case ev of Log l m \<Rightarrow> False | Write_file f d \<Rightarrow> True) (run_parser e) =
     (if snd (run_batch e) = [] \<or> \<not> write_ok e (stamped_file (stamp e)) then []
      else if \<not> write_ok e latest_file
      then [Write_file (stamped_file (stamp e)) (snd (run_batch e))]
      else [Write_file (stamped_file (stamp e)) (snd (run_batch e)),
            Write_file latest_file (snd (run_batch e))])"
    using nw by (simp add: run_parser_def case_prod_beta save_to_json_def Let_def)
  moreover have "Log WARNING No_products \<in> set (run_parser e) \<longleftrightarrow> snd (run_batch e) = []"
    using nwarn nsave by (simp add: run_parser_def case_prod_beta)
  moreover have "snd (get_product_links (fetch e)) = [] \<longrightarrow> snd (run_batch e) = []"
    by (simp add: run_batch_def case_prod_beta)
  ultimately show ?thesis by blast
qed

text \<open>With a file system that takes every write, the run over the example listing
  writes its batch of one record to both files and logs no warning; a run whose listing
  page cannot be fetched finds no link, logs the warning and writes nothing.\<close>

theorem C6_witness:
  "snd (run_batch (ex_env True)) \<noteq> [] \<and>
   filter (\<lambda>ev. case ev of Log l m \<Rightarrow> False | Write_file f d \<Rightarrow> True) (run_parser (ex_env True)) =
     [Write_file (stamped_file (py ''s'')) (snd (run_batch (ex_env True))),
      Write_file latest_file (snd (run_batch (ex_env True)))] \<and>
   Log WARNING No_products \<notin> set (run_parser (ex_env True)) \<and>
   run_parser \<lparr>fetch = (\<lambda>u. None), clock = (\<lambda>i. []), stamp = [], write_ok = (\<lambda>f. True)\<rparr> =
     [Log INFO Starting, Log INFO (Fetching_links sale_url), Log ERROR Error_links,
      Log WARNING No_products]"
proof -
  have b: "snd (run_batch (ex_env True)) \<noteq> []" by (simp add: ex_batch)
  have "filter (\<lambda>ev. case ev of Log l m \<Rightarrow> False | Write_file f d \<Rightarrow> True) (run_parser (ex_env True)) =
     [Write_file (stamped_file (py ''s'')) (snd (run_batch (ex_env True))),
      Write_file latest_file (snd (run_batch (ex_env True)))] \<and>
   Log WARNING No_products \<notin> set (run_parser (ex_env True))"
    using C6_persist [of "ex_env True"] b by (simp add: ex_env_def)
  moreover have "run_parser \<lparr>fetch = (\<lambda>u. None), clock = (\<lambda>i. []), stamp = [], write_ok = (\<lambda>f. True)\<rparr> =
     [Log INFO Starting, Log INFO (Fetching_links sale_url), Log ERROR Error_links,
      Log WARNING No_products]"
    by (simp add: run_parser_def run_batch_def get_product_links_def)
  ultimately show ?thesis using b by simp
qed

text \<open>The same run with a file system that refuses every write: the batch holds one
  record and no file is written.\<close>

theorem C6_counterexample:
  "snd (run_batch (ex_env False)) \<noteq> [] \<and>
   filter (\<lambda>ev. case ev of Log l m \<Rightarrow> False | Write_file f d \<Rightarrow> True)
     (run_parser (ex_env False)) = [] \<and>
   Log WARNING No_products \<notin> set (run_parser (ex_env False))"
proof -
  have "\<forall>ev \<in> set (fst (run_batch (ex_env False))). \<exists>m. ev = Log INFO m \<or> ev = Log ERROR m"
    by (rule run_batch_events)
  then have "filter (\<lambda>ev. case ev of Log l m \<Rightarrow> False | Write_file f d \<Rightarrow> True)
               (fst (run_batch (ex_env False))) = [] \<and>
             Log WARNING No_products \<notin> set (fst (run_batch (ex_env False)))"
    by (auto simp: filter_empty_conv)
  moreover have "write_ok (ex_env False) f = False" for f
    by (simp add: ex_env_def)
  ultimately show ?thesis
    by (simp add: run_parser_def case_prod_beta ex_batch save_to_json_def Let_def)
qed

section \<open>Normalisation of the record\<close>

lemma strip_Nil: "strip [] = []"
  by (simp add: strip_def)

lemma strip_ends:
  assumes "strip x \<noteq> []"
  shows "\<not> isspace (hd (strip x)) \<and> \<not> isspace (last (strip x))"
proof -
  define a where "a = dropWhile isspace x"
  define b where "b = dropWhile isspace (rev a)"
  have s: "strip x = rev b" by (simp add: strip_def a_def b_def)
  with assms have bn: "b \<noteq> []" by simp
  then have an: "a \<noteq> []" by (auto simp: b_def)
  have "\<not> isspace (hd b)" using bn unfolding b_def by (metis hd_dropWhile)
  moreover have "last (rev b) = hd b" using bn by (simp add: last_rev)
  moreover have "hd (rev b) = hd a" unfolding b_def using hd_dropWhile_rev bn an b_def by blast
  moreover have "\<not> isspace (hd a)" using an unfolding a_def by (metis hd_dropWhile)
  ultimately show ?thesis by (simp add: s)
qed

lemma strip_fixI:
  assumes "y \<noteq> []" "\<not> isspace (hd y)" "\<not> isspace (last y)"
  shows "strip y = y"
proof -
  have "dropWhile isspace y = y" using assms by (intro dropWhile_fix) simp
  moreover have "dropWhile isspace (rev y) = rev y"
    using assms by (intro dropWhile_fix) (simp add: hd_rev)
  ultimately show ?thesis by (simp add: strip_def)
qed

lemma join_ends:
  "xs \<noteq> [] \<Longrightarrow> \<forall>x \<in> set xs. x \<noteq> [] \<Longrightarrow>
   join sep xs \<noteq> [] \<and> hd (join sep xs) = hd (hd xs) \<and> last (join sep xs) = last (last xs)"
  by (induction sep xs rule: join.induct) auto

lemma get_text_strip_trimmed: "strip (get_text_strip sep t) = get_text_strip sep t"
proof -
  define xs where "xs = filter (\<lambda>s. s \<noteq> []) (map strip (concat (map strings (t_kids t))))"
  have g: "get_text_strip sep t = join sep xs" by (simp add: get_text_strip_def xs_def)
  show ?thesis
  proof (cases "xs = []")
    case True
    then show ?thesis by (simp add: g strip_Nil)
  next
    case False
    have el: "x \<noteq> [] \<and> \<not> isspace (hd x) \<and> \<not> isspace (last x)" if "x \<in> set xs" for x
    proof -
      from that obtain s where "x = strip s" "strip s \<noteq> []" by (auto simp: xs_def)
      then show ?thesis using strip_ends [of s] by simp
    qed
    then have ne: "\<forall>x \<in> set xs. x \<noteq> []" by blast
    have "hd xs \<in> set xs" "last xs \<in> set xs" using False by simp_all
    then have "\<not> isspace (hd (hd xs))" "\<not> isspace (last (last xs))" using el by blast+
    then show ?thesis using join_ends [OF False ne, of sep] by (simp add: g strip_fixI)
  qed
qed

lemma get_tab_content_trimmed:
  "strip (fst (get_tab_content doc tab_id)) = fst (get_tab_content doc tab_id)"
  by (simp add: get_tab_content_def Let_def strip_Nil get_text_strip_trimmed split: option.splits)

lemma get_name_trimmed: "strip (get_name doc) = get_name doc"
  by (simp add: get_name_def Let_def strip_Nil strip_idem split_on_case split: option.splits)

lemma get_category_trimmed: "strip (get_category doc) = get_category doc"
  by (simp add: get_category_def Let_def strip_Nil strip_idem)

lemma last_stripped:
  assumes "filter (\<lambda>part. part \<noteq> []) (map strip xs) \<noteq> []"
  shows "strip (last (filter (\<lambda>part. part \<noteq> []) (map strip xs))) =
         last (filter (\<lambda>part. part \<noteq> []) (map strip xs))"
proof -
  have "last (filter (\<lambda>part. part \<noteq> []) (map strip xs)) \<in>
        set (filter (\<lambda>part. part \<noteq> []) (map strip xs))"
    using assms by (rule last_in_set)
  then obtain x where "last (filter (\<lambda>part. part \<noteq> []) (map strip xs)) = strip x" by auto
  then show ?thesis by (simp add: strip_idem)
qed

lemma get_manufacturer_trimmed: "strip (get_manufacturer doc) = get_manufacturer doc"
  by (simp add: get_manufacturer_def Let_def strip_Nil strip_idem last_stripped
      split: option.splits)

lemma blank_to_none_other: "\<forall>s. v \<noteq> VStr s \<Longrightarrow> blank_to_none v = v"
  by (cases v) auto

lemma blank_to_none_VStr: "blank_to_none v = VStr s \<Longrightarrow> v = VStr s"
  by (cases v) (auto split: if_splits)

lemma trimmed_fields:
  assumes "key \<in> set (map py [''name'', ''manufacturer'', ''category'', ''description'',
                                ''composition'', ''analysis'', ''feeding_norm''])"
    and "map_of (product_data_of doc url now) key = Some (VStr s)"
  shows "strip s = s"
  using assms
  by (auto simp: product_data_of_def case_prod_beta Let_def py_eq_iff get_name_trimmed
      get_manufacturer_trimmed get_category_trimmed get_tab_content_trimmed)

text \<open>
  Claim C3, as the code has it. In the record of a fetched page the keys are those of
  the assembled dictionary, in the same order. A string value that is empty or holds
  only white space is replaced by \<open>None\<close>; any other string value is kept as it is; a
  value that is not a string is kept as it is, so the price record, the image list, the
  weight list and the reviews are not touched. The kept strings under \<open>name\<close>,
  \<open>manufacturer\<close>, \<open>category\<close> and the four tab fields carry no surrounding white space,
  their extractors having trimmed them; \<open>url\<close> is kept as it was given.
\<close>

theorem C3_normalization:
  assumes "fetcher url = Some doc"
  shows "\<exists>r. snd (parse_product fetcher now url) = Some r \<and>
     map fst r = map fst (product_data_of doc url now) \<and>
     (\<forall>key s. map_of (product_data_of doc url now) key = Some (VStr s) \<longrightarrow>
        map_of r key = Some (if strip s = [] then VNone else VStr s)) \<and>
     (\<forall>key v. map_of (product_data_of doc url now) key = Some v \<and> (\<forall>s. v \<noteq> VStr s) \<longrightarrow>
        map_of r key = Some v) \<and>
     (\<forall>key s. key \<in> set (map py [''name'', ''manufacturer'', ''category'', ''description'',
                                  ''composition'', ''analysis'', ''feeding_norm'']) \<and>
        map_of r key = Some (VStr s) \<longrightarrow> strip s = s) \<and>
     map_of r (py ''price'') = Some (VPrice (get_price doc)) \<and>
     map_of r (py ''images'') = Some (VList (get_images doc)) \<and>
     map_of r (py ''weight'') = Some (VList (get_weight doc)) \<and>
     (\<exists>reviews. map_of r (py ''reviews'') = Some (VReviews reviews)) \<and>
     map_of r (py ''url'') = Some (if strip url = [] then VNone else VStr url)"
proof -
  let ?pd = "product_data_of doc url now"
  let ?r = "normalize ?pd"
  have r: "snd (parse_product fetcher now url) = Some ?r"
    using assms by (simp add: parse_product_def)
  have keys: "map fst ?r = map fst ?pd"
    by (simp add: normalize_def case_prod_beta comp_def)
  have str: "map_of ?r key = Some (if strip s = [] then VNone else VStr s)"
    if "map_of ?pd key = Some (VStr s)" for key s
    using that by (simp add: map_of_normalize)
  have other: "map_of ?r key = Some v"
    if "map_of ?pd key = Some v \<and> (\<forall>s. v \<noteq> VStr s)" for key v
    using that by (simp add: map_of_normalize blank_to_none_other)
  have trimmed: "strip s = s"
    if "key \<in> set (map py [''name'', ''manufacturer'', ''category'', ''description'',
                             ''composition'', ''analysis'', ''feeding_norm'']) \<and>
        map_of ?r key = Some (VStr s)" for key s
  proof -
    from that obtain v where "map_of ?pd key = Some v" "blank_to_none v = VStr s"
      by (auto simp: map_of_normalize)
    then have "map_of ?pd key = Some (VStr s)" using blank_to_none_VStr by blast
    with that show ?thesis using trimmed_fields by blast
  qed
  have fields: "map_of ?r (py ''price'') = Some (VPrice (get_price doc)) \<and>
     map_of ?r (py ''images'') = Some (VList (get_images doc)) \<and>
     map_of ?r (py ''weight'') = Some (VList (get_weight doc)) \<and>
     (\<exists>reviews. map_of ?r (py ''reviews'') = Some (VReviews reviews)) \<and>
     map_of ?r (py ''url'') = Some (if strip url = [] then VNone else VStr url)"
    by (simp add: map_of_normalize product_data_of_def case_prod_beta Let_def py_eq_iff)
  show ?thesis using r keys str other trimmed fields by blast
qed

text \<open>The page whose title is \<open>Foo - shop\<close>, fetched from the address \<open>u\<close>: the name is
  kept, the empty manufacturer becomes \<open>None\<close>, the empty image list stays a list.\<close>

theorem C3_witness:
  "\<exists>r. snd (parse_product (\<lambda>u. Some (ex_name_doc (py ''Foo '' @ [DASH] @ py '' shop'')))
            (py ''t'') (py ''u'')) = Some r \<and>
       map_of r (py ''name'') = Some (VStr (py ''Foo'')) \<and>
       map_of r (py ''manufacturer'') = Some VNone \<and>
       map_of r (py ''images'') = Some (VList []) \<and>
       map_of r (py ''url'') = Some (VStr (py ''u''))"
proof -
  let ?doc = "ex_name_doc (py ''Foo '' @ [DASH] @ py '' shop'')"
  have n: "get_name ?doc = py ''Foo''"
    by (simp add: ex_name_doc_def ex_title_def sel_defs str_defs get_name_def Let_def)
  have m: "get_manufacturer ?doc = []"
    by (simp add: ex_name_doc_def ex_title_def sel_defs get_manufacturer_def py_eq_iff)
  have i: "get_images ?doc = []"
    by (simp add: ex_name_doc_def ex_title_def sel_defs get_images_def main_image_src_def
        py_eq_iff)
  have pn: "map_of (product_data_of ?doc (py ''u'') (py ''t'')) (py ''name'') = Some (VStr (py ''Foo''))"
    and pm: "map_of (product_data_of ?doc (py ''u'') (py ''t'')) (py ''manufacturer'') = Some (VStr [])"
    using n m by (simp_all add: product_data_of_def case_prod_beta Let_def py_eq_iff)
  have s: "strip (py ''Foo'') \<noteq> []" "strip (py ''u'') \<noteq> []" "strip [] = []"
    by (simp_all add: strip_def isspace_def py_def)
  from C3_normalization [of "\<lambda>u. Some ?doc" "py ''u''" ?doc "py ''t''"]
  obtain r where r: "snd (parse_product (\<lambda>u. Some ?doc) (py ''t'') (py ''u'')) = Some r"
    and str: "\<forall>key s. map_of (product_data_of ?doc (py ''u'') (py ''t'')) key = Some (VStr s) \<longrightarrow>
        map_of r key = Some (if strip s = [] then VNone else VStr s)"
    and im: "map_of r (py ''images'') = Some (VList (get_images ?doc))"
    and u: "map_of r (py ''url'') = Some (if strip (py ''u'') = [] then VNone else VStr (py ''u''))"
    by auto
  from str pn s have "map_of r (py ''name'') = Some (VStr (py ''Foo''))" by auto
  moreover from str pm s have "map_of r (py ''manufacturer'') = Some VNone" by auto
  ultimately show ?thesis using r im u s i by auto
qed

text \<open>The address \<open>u \<close> with a space at its end: the record keeps the space.\<close>

theorem C3_counterexample:
  "map_option (\<lambda>r. map_of r (py ''url''))
     (snd (parse_product (\<lambda>u. Some []) (py ''t'') (py ''u ''))) = Some (Some (VStr (py ''u ''))) \<and>
   strip (py ''u '') = py ''u'' \<and> py ''u '' \<noteq> py ''u''"
proof -
  have s: "strip (py ''u '') = py ''u''"
    by (simp add: strip_def isspace_def py_def)
  then have "strip (py ''u '') \<noteq> []" by (simp add: py_Nil_iff)
  then show ?thesis using s
    by (simp add: parse_product_def map_of_normalize product_data_of_def case_prod_beta Let_def
        py_eq_iff)
qed

end
